theory Spec2Isabelle
  imports Complex_Main "HOL-Library.AList"
begin

section \<open>Python values read from a save file\<close>

text \<open>
  The validators of \<^verbatim>\<open>error_handling.py\<close> receive whatever \<^verbatim>\<open>json.load\<close> produced:
  \<^verbatim>\<open>None\<close>, booleans, integers, floats, strings, lists and dictionaries with string keys.
  A float is a rational number, an infinity or NaN; only its comparison with an integer
  is ever used by the code below.
\<close>

datatype pyfloat = FNum rat | FPosInf | FNegInf | FNaN

datatype pyval =
    PNone
  | PBool bool
  | PInt int
  | PFloat pyfloat
  | PStr string
  | PList "pyval list"
  | PDict "(string \<times> pyval) list"

text \<open>
  \<^verbatim>\<open>isinstance(v, int)\<close>: \<^verbatim>\<open>bool\<close> is a subclass of \<^verbatim>\<open>int\<close>, with \<^verbatim>\<open>True\<close> counting as 1 and
  \<^verbatim>\<open>False\<close> as 0. The result is the integer value when the test succeeds.
\<close>

fun isinstance_int :: "pyval \<Rightarrow> int option" where
  "isinstance_int (PInt n) = Some n"
| "isinstance_int (PBool b) = Some (if b then 1 else 0)"
| "isinstance_int v = None"

text \<open>
  \<^verbatim>\<open>v == k\<close> for an integer \<^verbatim>\<open>k\<close>, as Python evaluates it: numbers are compared by value
  across \<^verbatim>\<open>bool\<close>, \<^verbatim>\<open>int\<close> and \<^verbatim>\<open>float\<close> (so \<^verbatim>\<open>True == 1\<close> and \<^verbatim>\<open>1.0 == 1\<close>), every
  other value differs from every integer, and the comparison never raises.
\<close>

fun py_eq_int :: "pyval \<Rightarrow> int \<Rightarrow> bool" where
  "py_eq_int (PInt n) k = (n = k)"
| "py_eq_int (PBool b) k = ((if b then 1 else 0) = k)"
| "py_eq_int (PFloat (FNum q)) k = (q = of_int k)"
| "py_eq_int v k = False"

text \<open>\<^verbatim>\<open>v in [k1, k2, ...]\<close> for a list of integer literals: the first equal element decides.\<close>

fun py_in_ints :: "pyval \<Rightarrow> int list \<Rightarrow> bool" where
  "py_in_ints v [] = False"
| "py_in_ints v (k # ks) = (if py_eq_int v k then True else py_in_ints v ks)"

text \<open>\<^verbatim>\<open>isinstance(v, list)\<close>, giving the elements when the test succeeds.\<close>

fun isinstance_list :: "pyval \<Rightarrow> pyval list option" where
  "isinstance_list (PList xs) = Some xs"
| "isinstance_list v = None"


section \<open>Configuration (\<^verbatim>\<open>config.py\<close>)\<close>

definition MIN_BOARD_SIZE :: int where "MIN_BOARD_SIZE = 4"
definition MAX_BOARD_SIZE :: int where "MAX_BOARD_SIZE = 16"
definition VALID_BOARD_SIZES :: "int list" where
  "VALID_BOARD_SIZES = [4, 6, 8, 10, 12, 14, 16]"
definition MAX_TRANSPOSITION_SIZE :: nat where "MAX_TRANSPOSITION_SIZE = 10000"

definition DIRECTIONS :: "(int \<times> int) list" where
  "DIRECTIONS = [(-1, -1), (-1, 0), (-1, 1), (0, -1), (0, 1), (1, -1), (1, 0), (1, 1)]"


section \<open>Validators (\<^verbatim>\<open>error_handling.py\<close>)\<close>

text \<open>
  \<^verbatim>\<open>validate_board_size\<close>: the \<^verbatim>\<open>isinstance\<close> guard comes first, so the comparisons and the
  remainder below it are taken on an integer, where none of them can raise. Python's \<^verbatim>\<open>%\<close>
  with a positive divisor is \<open>mod\<close> on \<open>int\<close>.
\<close>

definition validate_board_size :: "pyval \<Rightarrow> bool" where
  "validate_board_size sz =
     (case isinstance_int sz of
        None \<Rightarrow> False
      | Some n \<Rightarrow>
          if n < MIN_BOARD_SIZE \<or> n > MAX_BOARD_SIZE then False
          else if n mod 2 \<noteq> 0 then False
          else True)"

text \<open>The loop over \<^verbatim>\<open>required_fields\<close>: the first missing field ends the validation.\<close>

fun fields_present :: "(string \<rightharpoonup> pyval) \<Rightarrow> string list \<Rightarrow> bool" where
  "fields_present data [] = True"
| "fields_present data (field # fields) =
     (if data field = None then False else fields_present data fields)"

text \<open>The inner loop over the cells of one row: the first cell outside \<^verbatim>\<open>[0, 1, 2]\<close> ends it.\<close>

fun cells_valid :: "pyval list \<Rightarrow> bool" where
  "cells_valid [] = True"
| "cells_valid (cell # cells) =
     (if \<not> py_in_ints cell [0, 1, 2] then False else cells_valid cells)"

text \<open>
  The outer loop over the rows. \<^verbatim>\<open>len(row) != size\<close> compares an integer with whatever
  value \<^verbatim>\<open>size\<close> holds.
\<close>

fun rows_valid :: "pyval \<Rightarrow> pyval list \<Rightarrow> bool" where
  "rows_valid sz [] = True"
| "rows_valid sz (row # rows) =
     (case isinstance_list row of
        None \<Rightarrow> False
      | Some cells \<Rightarrow>
          if \<not> py_eq_int sz (int (length cells)) then False
          else if \<not> cells_valid cells then False
          else rows_valid sz rows)"

text \<open>\<^verbatim>\<open>data.get(key, default)\<close>.\<close>

definition dict_get :: "(string \<rightharpoonup> pyval) \<Rightarrow> string \<Rightarrow> pyval \<Rightarrow> pyval" where
  "dict_get data key dflt = (case data key of None \<Rightarrow> dflt | Some v \<Rightarrow> v)"

definition validate_save_file :: "(string \<rightharpoonup> pyval) \<Rightarrow> bool" where
  "validate_save_file data =
     (if \<not> fields_present data [''grid'', ''size'', ''to_move''] then False
      else
        let grid = dict_get data ''grid'' (PList []);
            sz = dict_get data ''size'' (PInt 0)
        in case isinstance_list grid of
             None \<Rightarrow> False
           | Some rows \<Rightarrow>
               if \<not> py_eq_int sz (int (length rows)) then False
               else if \<not> rows_valid sz rows then False
               else if \<not> py_in_ints (dict_get data ''to_move'' PNone) [1, 2] then False
               else True)"



text \<open>
  What \<^verbatim>\<open>validate_save_file\<close> passes to \<^verbatim>\<open>logger.error\<close>, with the values the message
  is formatted from: the loops run as above, and the first failing check logs its error
  and ends the validation, so the list holds at most one entry. The counters are the
  \<^verbatim>\<open>i\<close> and \<^verbatim>\<open>j\<close> of \<^verbatim>\<open>enumerate\<close>.
\<close>

datatype save_error =
    MissingField string
  | GridNotList
  | GridHeight nat pyval
  | RowNotList nat
  | RowLength nat nat pyval
  | InvalidCell nat nat pyval
  | InvalidToMove pyval

fun field_errors :: "(string \<rightharpoonup> pyval) \<Rightarrow> string list \<Rightarrow> save_error list" where
  "field_errors data [] = []"
| "field_errors data (field # fields) =
     (if data field = None then [MissingField field] else field_errors data fields)"

fun cell_errors :: "nat \<Rightarrow> nat \<Rightarrow> pyval list \<Rightarrow> save_error list" where
  "cell_errors i j [] = []"
| "cell_errors i j (cell # cells) =
     (if \<not> py_in_ints cell [0, 1, 2] then [InvalidCell i j cell]
      else cell_errors i (Suc j) cells)"

fun row_errors :: "pyval \<Rightarrow> nat \<Rightarrow> pyval list \<Rightarrow> save_error list" where
  "row_errors sz i [] = []"
| "row_errors sz i (row # rows) =
     (case isinstance_list row of
        None \<Rightarrow> [RowNotList i]
      | Some cells \<Rightarrow>
          if \<not> py_eq_int sz (int (length cells)) then [RowLength i (length cells) sz]
          else if cell_errors i 0 cells \<noteq> [] then cell_errors i 0 cells
          else row_errors sz (Suc i) rows)"

definition save_file_errors :: "(string \<rightharpoonup> pyval) \<Rightarrow> save_error list" where
  "save_file_errors data =
     (if field_errors data [''grid'', ''size'', ''to_move''] \<noteq> [] then
        field_errors data [''grid'', ''size'', ''to_move'']
      else
        let grid = dict_get data ''grid'' (PList []);
            sz = dict_get data ''size'' (PInt 0)
        in case isinstance_list grid of
             None \<Rightarrow> [GridNotList]
           | Some rows \<Rightarrow>
               if \<not> py_eq_int sz (int (length rows)) then [GridHeight (length rows) sz]
               else if row_errors sz 0 rows \<noteq> [] then row_errors sz 0 rows
               else if \<not> py_in_ints (dict_get data ''to_move'' PNone) [1, 2] then
                 [InvalidToMove (dict_get data ''to_move'' PNone)]
               else [])"


subsection \<open>The load validation as the specification words it\<close>

text \<open>
  The save-file format of the specification types \<open>size\<close>, \<open>to_move\<close> and every cell as
  an integer: \<open>grid\<close> is a matrix with exactly \<open>size\<close> rows, each of exactly \<open>size\<close> cells,
  every cell value in \<open>{0, 1, 2}\<close>, and \<open>to_move\<close> in \<open>{1, 2}\<close>.
\<close>

definition spec_cell_ok :: "pyval \<Rightarrow> bool" where
  "spec_cell_ok cell = (cell = PInt 0 \<or> cell = PInt 1 \<or> cell = PInt 2)"

definition spec_row_ok :: "int \<Rightarrow> pyval \<Rightarrow> bool" where
  "spec_row_ok n row =
     (case row of
        PList cells \<Rightarrow> int (length cells) = n \<and> list_all spec_cell_ok cells
      | _ \<Rightarrow> False)"

definition spec_grid_ok :: "int \<Rightarrow> pyval \<Rightarrow> bool" where
  "spec_grid_ok n g =
     (case g of
        PList rows \<Rightarrow> int (length rows) = n \<and> list_all (spec_row_ok n) rows
      | _ \<Rightarrow> False)"

definition spec_save_file_ok :: "(string \<rightharpoonup> pyval) \<Rightarrow> bool" where
  "spec_save_file_ok data =
     (case data ''grid'' of
        None \<Rightarrow> False
      | Some g \<Rightarrow>
          (case data ''size'' of
             Some (PInt n) \<Rightarrow>
               (case data ''to_move'' of
                  Some (PInt t) \<Rightarrow> spec_grid_ok n g \<and> (t = 1 \<or> t = 2)
                | _ \<Rightarrow> False)
           | _ \<Rightarrow> False))"



subsection \<open>The same conditions with numbers compared by value\<close>

text \<open>
  The number a stored value stands for, if it stands for one: an integer, a boolean
  (\<^verbatim>\<open>False\<close> is 0 and \<^verbatim>\<open>True\<close> is 1) or a finite float. The conditions of the format read
  with numbers compared by value say that \<open>size\<close> is a number equal to the count of rows
  and to the length of each row, that each cell is a number equal to 0, 1 or 2, and that
  \<open>to_move\<close> is a number equal to 1 or 2.
\<close>

fun py_number :: "pyval \<Rightarrow> rat option" where
  "py_number (PInt n) = Some (of_int n)"
| "py_number (PBool b) = Some (if b then 1 else 0)"
| "py_number (PFloat (FNum q)) = Some q"
| "py_number v = None"

definition value_cell_ok :: "pyval \<Rightarrow> bool" where
  "value_cell_ok cell = (py_number cell \<in> {Some 0, Some 1, Some 2})"

definition value_row_ok :: "pyval \<Rightarrow> pyval \<Rightarrow> bool" where
  "value_row_ok sz row =
     (case row of
        PList cells \<Rightarrow>
          py_number sz = Some (of_nat (length cells)) \<and> list_all value_cell_ok cells
      | _ \<Rightarrow> False)"

definition value_grid_ok :: "pyval \<Rightarrow> pyval \<Rightarrow> bool" where
  "value_grid_ok sz g =
     (case g of
        PList rows \<Rightarrow>
          py_number sz = Some (of_nat (length rows)) \<and> list_all (value_row_ok sz) rows
      | _ \<Rightarrow> False)"

definition value_save_file_ok :: "(string \<rightharpoonup> pyval) \<Rightarrow> bool" where
  "value_save_file_ok data =
     (case data ''grid'' of
        None \<Rightarrow> False
      | Some g \<Rightarrow>
          (case data ''size'' of
             None \<Rightarrow> False
           | Some sz \<Rightarrow>
               (case data ''to_move'' of
                  None \<Rightarrow> False
                | Some tm \<Rightarrow> value_grid_ok sz g \<and> py_number tm \<in> {Some 1, Some 2})))"

text \<open>
  A save file stores no boolean and no float in \<open>size\<close>, in \<open>to_move\<close> or in a cell of a
  row that is a list.
\<close>

fun bool_or_float :: "pyval \<Rightarrow> bool" where
  "bool_or_float (PBool b) = True"
| "bool_or_float (PFloat f) = True"
| "bool_or_float v = False"

definition no_bool_or_float :: "pyval option \<Rightarrow> bool" where
  "no_bool_or_float field = (case field of None \<Rightarrow> True | Some v \<Rightarrow> \<not> bool_or_float v)"

definition plain_row :: "pyval \<Rightarrow> bool" where
  "plain_row row =
     (case row of PList cells \<Rightarrow> list_all (\<lambda>c. \<not> bool_or_float c) cells | _ \<Rightarrow> True)"

definition plain_values :: "(string \<rightharpoonup> pyval) \<Rightarrow> bool" where
  "plain_values data =
     (no_bool_or_float (data ''size'') \<and> no_bool_or_float (data ''to_move'') \<and>
      (case data ''grid'' of Some (PList rows) \<Rightarrow> list_all plain_row rows | _ \<Rightarrow> True))"

text \<open>
  Save files to run the validator on: the 4x4 opening position; a 2x2 grid whose
  \<open>to_move\<close> is the boolean \<^verbatim>\<open>true\<close>; a 3x3 grid with \<open>size = 3\<close>; an empty grid with
  \<open>size = 0\<close>; and, for any \<open>size\<close> value and count \<open>n\<close>, the \<open>n\<close> by \<open>n\<close> grid of zeros saved
  with that \<open>size\<close> and \<open>to_move = 1\<close>.
\<close>

definition save_opening4 :: "string \<rightharpoonup> pyval" where
  "save_opening4 =
     [''grid'' \<mapsto> PList [PList [PInt 0, PInt 0, PInt 0, PInt 0],
                          PList [PInt 0, PInt 2, PInt 1, PInt 0],
                          PList [PInt 0, PInt 1, PInt 2, PInt 0],
                          PList [PInt 0, PInt 0, PInt 0, PInt 0]],
      ''size'' \<mapsto> PInt 4,
      ''to_move'' \<mapsto> PInt 1]"

definition save_bool_to_move :: "string \<rightharpoonup> pyval" where
  "save_bool_to_move =
     [''grid'' \<mapsto> PList [PList [PInt 0, PInt 0], PList [PInt 0, PInt 0]],
      ''size'' \<mapsto> PInt 2,
      ''to_move'' \<mapsto> PBool True]"





section \<open>Error-handling helpers (\<^verbatim>\<open>error_handling.py\<close>)\<close>

text \<open>
  The exception classes the helpers name, the game's own exception classes, the
  built-in classes around them, and \<open>Derived name base\<close> for any further class declared
  as \<^verbatim>\<open>class name(base)\<close>. \<open>base_class\<close> is the direct base class of each.
\<close>

datatype exc_class =
    BaseException
  | Exception
  | OSError
  | FileNotFoundError
  | PermissionError
  | ValueError
  | JSONDecodeError
  | AttributeError
  | TypeError
  | LookupError
  | IndexError
  | ReversiError
  | InvalidMoveError
  | InvalidBoardStateError
  | SaveFileError
  | ConfigurationError
  | KeyboardInterrupt
  | SystemExit
  | GeneratorExit
  | Derived string exc_class

fun base_class :: "exc_class \<Rightarrow> exc_class option" where
  "base_class BaseException = None"
| "base_class Exception = Some BaseException"
| "base_class OSError = Some Exception"
| "base_class FileNotFoundError = Some OSError"
| "base_class PermissionError = Some OSError"
| "base_class ValueError = Some Exception"
| "base_class JSONDecodeError = Some ValueError"
| "base_class AttributeError = Some Exception"
| "base_class TypeError = Some Exception"
| "base_class LookupError = Some Exception"
| "base_class IndexError = Some LookupError"
| "base_class ReversiError = Some Exception"
| "base_class InvalidMoveError = Some ReversiError"
| "base_class InvalidBoardStateError = Some ReversiError"
| "base_class SaveFileError = Some ReversiError"
| "base_class ConfigurationError = Some ReversiError"
| "base_class KeyboardInterrupt = Some BaseException"
| "base_class SystemExit = Some BaseException"
| "base_class GeneratorExit = Some BaseException"
| "base_class (Derived name b) = Some b"

text \<open>
  \<^verbatim>\<open>issubclass\<close>: the class itself or one of its bases. A built-in class above is at most
  three steps below \<^verbatim>\<open>BaseException\<close>, so \<open>bases_upto 3\<close> lists all its bases; a derived
  class adds itself to the bases of its base.
\<close>

fun bases_upto :: "nat \<Rightarrow> exc_class \<Rightarrow> exc_class list" where
  "bases_upto 0 c = [c]"
| "bases_upto (Suc k) c =
     (case base_class c of None \<Rightarrow> [c] | Some b \<Rightarrow> c # bases_upto k b)"

fun bases :: "exc_class \<Rightarrow> exc_class list" where
  "bases (Derived name b) = Derived name b # bases b"
| "bases c = bases_upto 3 c"

definition issubclass :: "exc_class \<Rightarrow> exc_class \<Rightarrow> bool" where
  "issubclass c d = (d \<in> set (bases c))"

text \<open>A raised exception: its class and the text \<^verbatim>\<open>str(e)\<close> gives.\<close>

record pyexc =
  exc_cls :: exc_class
  exc_text :: string

definition isinstance_exc :: "pyexc \<Rightarrow> exc_class \<Rightarrow> bool" where
  "isinstance_exc e c = issubclass (exc_cls e) c"

text \<open>
  A call either returns a value (\<open>Inr\<close>) or raises (\<open>Inl\<close>). The logger is a list of the
  messages passed to \<^verbatim>\<open>logger.error\<close>, oldest first.

  \<^verbatim>\<open>handle_file_errors(default_return, error_message)(func)\<close> is the wrapper below: the
  \<^verbatim>\<open>except\<close> clauses are tried in the order of the source, and an exception none of them
  matches leaves the wrapper as it came.
\<close>

definition handle_file_errors ::
  "'a \<Rightarrow> string \<Rightarrow> ('args \<Rightarrow> pyexc + 'a) \<Rightarrow> 'args \<Rightarrow> string list \<Rightarrow> (pyexc + 'a) \<times> string list" where
  "handle_file_errors default_return error_message func args logs =
     (case func args of
        Inr result \<Rightarrow> (Inr result, logs)
      | Inl e \<Rightarrow>
          if isinstance_exc e FileNotFoundError then
            (Inr default_return, logs @ [error_message @ '' - File not found: '' @ exc_text e])
          else if isinstance_exc e PermissionError then
            (Inr default_return, logs @ [error_message @ '' - Permission denied: '' @ exc_text e])
          else if isinstance_exc e JSONDecodeError then
            (Inr default_return, logs @ [error_message @ '' - Invalid JSON: '' @ exc_text e])
          else if isinstance_exc e OSError then
            (Inr default_return, logs @ [error_message @ '' - OS error: '' @ exc_text e])
          else if isinstance_exc e Exception then
            (Inr default_return, logs @ [error_message @ '' - Unexpected error: '' @ exc_text e])
          else (Inl e, logs))"

text \<open>
  The callable handed to \<^verbatim>\<open>safe_execute\<close>: what calling it does, the name of its type,
  and its \<^verbatim>\<open>__name__\<close> attribute, which a function always has and another callable
  object (a \<^verbatim>\<open>functools.partial\<close>, say) may lack.
\<close>

record ('args, 'a) callable =
  call :: "'args \<Rightarrow> pyexc + 'a"
  type_name :: string
  func_name :: "string option"

definition quoted :: "string \<Rightarrow> string" where
  "quoted s = CHR 0x27 # s @ [CHR 0x27]"

text \<open>
  \<^verbatim>\<open>safe_execute\<close>. In the handler, \<^verbatim>\<open>error_msg or f"Error executing {func.__name__}"\<close>
  reads \<^verbatim>\<open>func.__name__\<close> only when \<^verbatim>\<open>error_msg\<close> is empty; reading a missing attribute
  raises \<^verbatim>\<open>AttributeError\<close> out of the handler, with the text Python gives it:
  the quoted type name, \<^verbatim>\<open>object has no attribute\<close>, and the quoted attribute.
\<close>

definition safe_execute ::
  "('args, 'a) callable \<Rightarrow> 'args \<Rightarrow> 'a \<Rightarrow> string \<Rightarrow> string list \<Rightarrow> (pyexc + 'a) \<times> string list" where
  "safe_execute func args dflt error_msg logs =
     (case call func args of
        Inr result \<Rightarrow> (Inr result, logs)
      | Inl e \<Rightarrow>
          if isinstance_exc e Exception then
            (if error_msg \<noteq> [] then (Inr dflt, logs @ [error_msg @ '': '' @ exc_text e])
             else
               (case func_name func of
                  None \<Rightarrow>
                    (Inl \<lparr>exc_cls = AttributeError,
                          exc_text = quoted (type_name func) @ '' object has no attribute ''
                                     @ quoted ''__name__''\<rparr>, logs)
                | Some n \<Rightarrow>
                    (Inr dflt, logs @ [(''Error executing '' @ n) @ '': '' @ exc_text e])))
          else (Inl e, logs))"

text \<open>
  Callables to run the helpers on: a function raising \<^verbatim>\<open>FileNotFoundError\<close>, one
  returning 7, one whose body is interrupted from the keyboard, and one that calls
  \<^verbatim>\<open>sys.exit\<close>.
\<close>

definition file_missing :: "(unit, int) callable" where
  "file_missing =
     \<lparr>call = (\<lambda>_. Inl \<lparr>exc_cls = FileNotFoundError, exc_text = ''save.rsv''\<rparr>),
      type_name = ''function'', func_name = Some ''load''\<rparr>"

definition returns_seven :: "(unit, int) callable" where
  "returns_seven =
     \<lparr>call = (\<lambda>_. Inr 7), type_name = ''function'', func_name = Some ''seven''\<rparr>"

definition interrupted :: "(unit, int) callable" where
  "interrupted =
     \<lparr>call = (\<lambda>_. Inl \<lparr>exc_cls = KeyboardInterrupt, exc_text = []\<rparr>),
      type_name = ''function'', func_name = Some ''f''\<rparr>"

definition exits :: "(unit, int) callable" where
  "exits =
     \<lparr>call = (\<lambda>_. Inl \<lparr>exc_cls = SystemExit, exc_text = ''1''\<rparr>),
      type_name = ''function'', func_name = Some ''quit''\<rparr>"


section \<open>The board\<close>

text \<open>
  The module that defines \<^verbatim>\<open>Board\<close>, \<^verbatim>\<open>Move\<close> and \<^verbatim>\<open>AI\<close> (imported by the tests as
  \<^verbatim>\<open>src.Reversi\<close>) is not among the sources; its definitions below follow the
  specification, with the constants of \<^verbatim>\<open>config.py\<close> and the facts the tests in
  \<^verbatim>\<open>tests/test_board.py\<close> and \<^verbatim>\<open>tests/test_ai.py\<close> fix.

  Modelled from the spec: a cell is one of Empty, Black, White (\<^verbatim>\<open>EMPTY\<close>, \<^verbatim>\<open>BLACK\<close>,
  \<^verbatim>\<open>WHITE\<close> of \<^verbatim>\<open>config.Colors\<close>), and the side to move is Black or White.
\<close>

datatype color = BLACK | WHITE

datatype cell = EMPTY | Disc color

fun opponent :: "color \<Rightarrow> color" where
  "opponent BLACK = WHITE"
| "opponent WHITE = BLACK"

type_synonym pos = "int \<times> int"

type_synonym grid = "cell list list"

text \<open>
  Modelled from the spec: a move is the placed disc's \<open>row\<close> and \<open>col\<close>, the mover's
  \<open>color\<close>, and \<open>flips\<close>, the coordinates whose color changes when the move is applied,
  here in the order the direction walks find them.
\<close>

record move =
  row :: int
  col :: int
  color :: color
  flips :: "pos list"

text \<open>
  Modelled from the spec: the board's fields. \<open>history\<close> and \<open>redo_stack\<close> are stacks of
  \<open>(grid, to_move)\<close> snapshots with the top at the end of the list, \<open>move_list\<close> logs
  \<open>(color, row, col)\<close> with a pass as \<open>(color, -1, -1)\<close>.
\<close>

record board =
  board_size :: nat
  grid :: grid
  to_move :: color
  history :: "(grid \<times> color) list"
  redo_stack :: "(grid \<times> color) list"
  move_list :: "(color \<times> int \<times> int) list"

text \<open>
  Modelled from the spec: coordinates on a grid of \<open>size\<close> rows and columns, and the
  reading and writing of one cell.
\<close>

definition in_bounds :: "nat \<Rightarrow> pos \<Rightarrow> bool" where
  "in_bounds n p = (0 \<le> fst p \<and> fst p < int n \<and> 0 \<le> snd p \<and> snd p < int n)"

definition cell_at :: "grid \<Rightarrow> pos \<Rightarrow> cell" where
  "cell_at g p = g ! nat (fst p) ! nat (snd p)"

definition set_cell :: "grid \<Rightarrow> pos \<Rightarrow> cell \<Rightarrow> grid" where
  "set_cell g p v = g[nat (fst p) := (g ! nat (fst p))[nat (snd p) := v]]"

text \<open>
  Modelled from the spec: \<open>construct(size)\<close> fails with \<^verbatim>\<open>ConfigurationError\<close> unless
  \<open>size\<close> is even and within \<open>[4, 16]\<close>; otherwise the four centre cells hold the opening
  cross and Black is to move. Which diagonal is White is fixed by \<^verbatim>\<open>test_initial_pieces\<close>:
  \<open>grid[c-1][c-1]\<close> and \<open>grid[c][c]\<close> are White, \<open>grid[c-1][c]\<close> and \<open>grid[c][c-1]\<close> are Black,
  for \<open>c = size // 2\<close>.
\<close>

definition initial_grid :: "int \<Rightarrow> grid" where
  "initial_grid sz =
     (let c = sz div 2;
          g0 = replicate (nat sz) (replicate (nat sz) EMPTY);
          g1 = set_cell g0 (c - 1, c - 1) (Disc WHITE);
          g2 = set_cell g1 (c, c) (Disc WHITE);
          g3 = set_cell g2 (c - 1, c) (Disc BLACK)
      in set_cell g3 (c, c - 1) (Disc BLACK))"

definition construct :: "int \<Rightarrow> exc_class + board" where
  "construct sz =
     (if \<not> (even sz \<and> MIN_BOARD_SIZE \<le> sz \<and> sz \<le> MAX_BOARD_SIZE) then Inl ConfigurationError
      else Inr \<lparr>board_size = nat sz, grid = initial_grid sz, to_move = BLACK,
                history = [], redo_stack = [], move_list = []\<rparr>)"

text \<open>
  Modelled from the spec: the walk from a cell in one direction. \<open>ray\<close> lists the cells
  met before the edge; the direction contributes its run of opponent discs only if the
  run is non-empty and ends on a disc of the mover's color before the edge.
\<close>

definition ray :: "nat \<Rightarrow> pos \<Rightarrow> int \<times> int \<Rightarrow> pos list" where
  "ray n p d =
     takeWhile (in_bounds n)
       (map (\<lambda>k. (fst p + int k * fst d, snd p + int k * snd d)) [1..<Suc n])"

definition direction_flips :: "nat \<Rightarrow> grid \<Rightarrow> color \<Rightarrow> pos \<Rightarrow> int \<times> int \<Rightarrow> pos list" where
  "direction_flips n g c p d =
     (let cells = ray n p d;
          run = takeWhile (\<lambda>q. cell_at g q = Disc (opponent c)) cells
      in case drop (length run) cells of
           [] \<Rightarrow> []
         | q # _ \<Rightarrow> if cell_at g q = Disc c then run else [])"

definition move_flips :: "nat \<Rightarrow> grid \<Rightarrow> color \<Rightarrow> pos \<Rightarrow> pos list" where
  "move_flips n g c p = concat (map (direction_flips n g c p) DIRECTIONS)"

text \<open>
  Modelled from the spec: \<open>legal_moves(color)\<close> scans the cells row by row; an empty cell
  is a legal move iff the union of its per-direction flip sets is non-empty.
\<close>

definition cell_moves :: "nat \<Rightarrow> grid \<Rightarrow> color \<Rightarrow> pos \<Rightarrow> move list" where
  "cell_moves n g c p =
     (if cell_at g p = EMPTY then
        (let f = move_flips n g c p
         in if f \<noteq> [] then [\<lparr>row = fst p, col = snd p, color = c, flips = f\<rparr>] else [])
      else [])"

definition grid_moves :: "nat \<Rightarrow> grid \<Rightarrow> color \<Rightarrow> move list" where
  "grid_moves n g c =
     concat (map (\<lambda>r. concat (map (\<lambda>cl. cell_moves n g c (int r, int cl)) [0..<n])) [0..<n])"

definition legal_moves :: "board \<Rightarrow> color \<Rightarrow> move list" where
  "legal_moves b c = grid_moves (board_size b) (grid b) c"


text \<open>
  Modelled from the spec: applying a move places the mover's disc and flips every cell
  of \<open>flips\<close>.
\<close>

definition apply_move :: "grid \<Rightarrow> move \<Rightarrow> grid" where
  "apply_move g m =
     foldl (\<lambda>g' p. set_cell g' p (Disc (color m)))
       (set_cell g (row m, col m) (Disc (color m))) (flips m)"

text \<open>
  Modelled from the spec: \<open>make_move(move)\<close> fails with \<^verbatim>\<open>InvalidMoveError\<close> if the move is
  not currently legal for \<open>to_move\<close>, leaving the board as it was; on success it pushes
  \<open>(grid, to_move)\<close> onto \<open>history\<close>, places the disc, flips the cells, appends
  \<open>(color, row, col)\<close> to \<open>move_list\<close>, toggles \<open>to_move\<close> and clears \<open>redo_stack\<close>.
\<close>

definition make_move :: "board \<Rightarrow> move \<Rightarrow> exc_class + board" where
  "make_move b m =
     (if m \<notin> set (legal_moves b (to_move b)) then Inl InvalidMoveError
      else Inr (b\<lparr>history := history b @ [(grid b, to_move b)],
                  grid := apply_move (grid b) m,
                  move_list := move_list b @ [(color m, row m, col m)],
                  to_move := opponent (to_move b),
                  redo_stack := []\<rparr>))"

text \<open>
  Modelled from the spec: \<open>pass_turn()\<close> toggles \<open>to_move\<close>, logs \<open>(color, -1, -1)\<close>, pushes
  history and clears redo as \<open>make_move\<close> does.
\<close>

definition pass_turn :: "board \<Rightarrow> board" where
  "pass_turn b =
     b\<lparr>history := history b @ [(grid b, to_move b)],
       move_list := move_list b @ [(to_move b, -1, -1)],
       to_move := opponent (to_move b),
       redo_stack := []\<rparr>"

text \<open>
  Modelled from the spec: \<open>undo()\<close> pops the last \<open>history\<close> entry, restores grid and
  \<open>to_move\<close> from it and pushes the state it leaves onto \<open>redo_stack\<close>; with an empty
  history it returns false and changes nothing. \<open>redo()\<close> is its inverse on \<open>redo_stack\<close>.
\<close>

definition undo :: "board \<Rightarrow> board \<times> bool" where
  "undo b =
     (if history b = [] then (b, False)
      else
        (case last (history b) of
           (g, t) \<Rightarrow>
             (b\<lparr>redo_stack := redo_stack b @ [(grid b, to_move b)],
                history := butlast (history b),
                grid := g,
                to_move := t\<rparr>, True)))"

definition redo :: "board \<Rightarrow> board \<times> bool" where
  "redo b =
     (if redo_stack b = [] then (b, False)
      else
        (case last (redo_stack b) of
           (g, t) \<Rightarrow>
             (b\<lparr>history := history b @ [(grid b, to_move b)],
                redo_stack := butlast (redo_stack b),
                grid := g,
                to_move := t\<rparr>, True)))"

text \<open>
  Modelled from the spec: \<open>game_over()\<close> holds iff the grid is full or neither color has
  a legal move; \<open>score()\<close> counts the discs of each color.
\<close>

definition grid_full :: "grid \<Rightarrow> bool" where
  "grid_full g = (EMPTY \<notin> set (concat g))"

definition grid_over :: "nat \<Rightarrow> grid \<Rightarrow> bool" where
  "grid_over n g = (grid_full g \<or> (grid_moves n g BLACK = [] \<and> grid_moves n g WHITE = []))"

definition game_over :: "board \<Rightarrow> bool" where
  "game_over b = grid_over (board_size b) (grid b)"

definition count_cells :: "grid \<Rightarrow> cell \<Rightarrow> nat" where
  "count_cells g v = length (filter (\<lambda>x. x = v) (concat g))"

definition score :: "board \<Rightarrow> nat \<times> nat" where
  "score b = (count_cells (grid b) (Disc BLACK), count_cells (grid b) (Disc WHITE))"

text \<open>
  The fresh 8x8 board the tests start from (\<^verbatim>\<open>Board(size=8)\<close>), and the first move
  \<open>legal_moves\<close> lists on it.
\<close>

definition board8 :: board where
  "board8 = \<lparr>board_size = 8, grid = initial_grid 8, to_move = BLACK,
             history = [], redo_stack = [], move_list = []\<rparr>"

definition opening_move :: move where
  "opening_move = \<lparr>row = 2, col = 3, color = BLACK, flips = [(3, 3)]\<rparr>"


section \<open>The search engine\<close>

text \<open>
  Modelled from the spec: the \<^verbatim>\<open>AI\<close> object holds \<open>max_depth\<close>, the
  \<open>transposition_table\<close> (a dictionary from a position fingerprint to the cached score
  and the depth it was searched at, kept here as an association list with one pair per
  key), the counter \<open>nodes_searched\<close> and the state of its seeded random source.
\<close>

type_synonym table = "(string \<times> (int \<times> nat)) list"

record ai =
  max_depth :: nat
  transposition_table :: table
  nodes_searched :: nat
  rng :: int

text \<open>
  Modelled from the spec: what the specification leaves to the implementation is a
  parameter of the search. \<open>evaluate\<close> scores a grid of the given size from a color's
  point of view, \<open>endgame_empties\<close> is the count of empty cells from which the search
  runs to the end of the game, and \<open>tolerance\<close> is the margin within which root scores
  count as tied.
\<close>

record heuristics =
  evaluate :: "nat \<Rightarrow> grid \<Rightarrow> color \<Rightarrow> int"
  endgame_empties :: nat
  tolerance :: nat

text \<open>
  Modelled from the spec: the fingerprint of a position is its grid contents and the
  side to move, written as a string, one character per cell.
\<close>

fun cell_char :: "cell \<Rightarrow> char" where
  "cell_char EMPTY = CHR ''0''"
| "cell_char (Disc BLACK) = CHR ''1''"
| "cell_char (Disc WHITE) = CHR ''2''"

definition fingerprint :: "grid \<Rightarrow> color \<Rightarrow> string" where
  "fingerprint g side = map cell_char (concat g) @ [cell_char (Disc side)]"

text \<open>
  Modelled from the spec: a cached entry answers a search of at most the depth it was
  stored with; storing replaces the entry of the same key.
\<close>

definition tt_lookup :: "table \<Rightarrow> string \<Rightarrow> nat \<Rightarrow> int option" where
  "tt_lookup tt key d =
     (case map_of tt key of
        None \<Rightarrow> None
      | Some (v, searched) \<Rightarrow> if d \<le> searched then Some v else None)"

definition tt_store :: "table \<Rightarrow> string \<Rightarrow> int \<times> nat \<Rightarrow> table" where
  "tt_store tt key entry = AList.update key entry tt"

text \<open>
  Modelled from the spec: candidate moves are ordered with transposition-table hits
  first, then corner moves, then the rest, each group in scan order.
\<close>

definition is_corner :: "nat \<Rightarrow> move \<Rightarrow> bool" where
  "is_corner n m = ((row m = 0 \<or> row m = int n - 1) \<and> (col m = 0 \<or> col m = int n - 1))"

definition tt_hit :: "table \<Rightarrow> grid \<Rightarrow> move \<Rightarrow> bool" where
  "tt_hit tt g m = (map_of tt (fingerprint (apply_move g m) (opponent (color m))) \<noteq> None)"

definition order_moves :: "nat \<Rightarrow> table \<Rightarrow> grid \<Rightarrow> move list \<Rightarrow> move list" where
  "order_moves n tt g ms =
     filter (tt_hit tt g) ms
     @ filter (\<lambda>m. \<not> tt_hit tt g m \<and> is_corner n m) ms
     @ filter (\<lambda>m. \<not> tt_hit tt g m \<and> \<not> is_corner n m) ms"

text \<open>
  Modelled from the spec: the alpha-beta window, where a missing bound is infinite.
  \<open>better\<close> keeps the maximum at a node of the root color and the minimum at a node of
  the opponent.
\<close>

definition cutoff :: "int option \<Rightarrow> int option \<Rightarrow> bool" where
  "cutoff alpha beta = (case (alpha, beta) of (Some a, Some b) \<Rightarrow> b \<le> a | _ \<Rightarrow> False)"

definition better :: "bool \<Rightarrow> int option \<Rightarrow> int \<Rightarrow> int" where
  "better maximizing best v =
     (case best of None \<Rightarrow> v | Some w \<Rightarrow> if maximizing then max w v else min w v)"

text \<open>
  Modelled from the spec: depth-limited minimax with alpha-beta pruning, rooted at
  \<open>rootc\<close>. Every node visited counts in \<open>nodes_searched\<close>. A cached score of sufficient
  depth answers the node; a node with no depth left or with the game over is a leaf,
  scored by \<open>evaluate\<close>; a side without a legal move passes to the opponent with the
  same depth budget (both sides without a move is the game over, hence a leaf);
  otherwise the moves are searched in order until the window closes, and the best score
  found is stored with the depth searched.
\<close>

function minimax ::
    "heuristics \<Rightarrow> color \<Rightarrow> nat \<Rightarrow> nat \<Rightarrow> grid \<Rightarrow> color \<Rightarrow> int option \<Rightarrow> int option \<Rightarrow>
     table \<times> nat \<Rightarrow> int \<times> (table \<times> nat)"
  and minimax_moves ::
    "heuristics \<Rightarrow> color \<Rightarrow> nat \<Rightarrow> nat \<Rightarrow> grid \<Rightarrow> color \<Rightarrow> move list \<Rightarrow> int option \<Rightarrow>
     int option \<Rightarrow> int option \<Rightarrow> table \<times> nat \<Rightarrow> int option \<times> (table \<times> nat)"
  where
  "minimax h rootc d n g side alpha beta st =
     (case st of
        (tt, cnt) \<Rightarrow>
          (case tt_lookup tt (fingerprint g side) d of
             Some v \<Rightarrow> (v, (tt, Suc cnt))
           | None \<Rightarrow>
               if d = 0 \<or> grid_over n g then (evaluate h n g rootc, (tt, Suc cnt))
               else if grid_moves n g side = [] then
                 minimax h rootc d n g (opponent side) alpha beta (tt, Suc cnt)
               else
                 (case minimax_moves h rootc (d - 1) n g side
                         (order_moves n tt g (grid_moves n g side)) None alpha beta (tt, Suc cnt) of
                    (None, st') \<Rightarrow> (evaluate h n g rootc, st')
                  | (Some v, (tt', cnt')) \<Rightarrow>
                      (v, (tt_store tt' (fingerprint g side) (v, d), cnt')))))"
| "minimax_moves h rootc d n g side [] best alpha beta st = (best, st)"
| "minimax_moves h rootc d n g side (m # ms) best alpha beta st =
     (if cutoff alpha beta then (best, st)
      else
        (case minimax h rootc d n (apply_move g m) (opponent side) alpha beta st of
           (v, st') \<Rightarrow>
             (let best' = better (side = rootc) best v
              in if side = rootc then
                   minimax_moves h rootc d n g side ms (Some best')
                     (Some (better True alpha best')) beta st'
                 else
                   minimax_moves h rootc d n g side ms (Some best')
                     alpha (Some (better False beta best')) st')))"
  by pat_completeness auto
termination
proof (relation "inv_image (less_than <*lex*> less_than <*lex*> less_than)
    (\<lambda>x. case x of
       Inl (h, rootc, d, n, g, side, alpha, beta, st) \<Rightarrow>
         (2 * d, if grid_moves n g side = [] then 2 else 1, 0)
     | Inr (h, rootc, d, n, g, side, ms, best, alpha, beta, st) \<Rightarrow>
         (2 * d + 1, 0, length ms))", goal_cases)
  case 1
  show ?case by (intro wf_inv_image wf_lex_prod wf_less_than)
next
  case (2 h rootc d n g side alpha beta st tt cnt)
  then show ?case
    by (cases side) (auto simp: grid_over_def)
next
  case 3
  then show ?case by auto
next
  case 4
  then show ?case by auto
next
  case 5
  then show ?case by auto
next
  case 6
  then show ?case by auto
qed

declare minimax.simps [simp del]


text \<open>
  Modelled from the spec: near the end of the game the search runs deeper than
  \<open>max_depth\<close>, up to the number of empty cells left.
\<close>

definition search_depth :: "heuristics \<Rightarrow> ai \<Rightarrow> grid \<Rightarrow> nat" where
  "search_depth h a g =
     (if count_cells g EMPTY \<le> endgame_empties h then max (max_depth a) (count_cells g EMPTY)
      else max_depth a)"

text \<open>
  Modelled from the spec: each root move is searched in turn, one ply of the depth
  budget spent on the move itself, the table and the node counter threaded through.
\<close>

fun score_moves ::
  "heuristics \<Rightarrow> color \<Rightarrow> nat \<Rightarrow> nat \<Rightarrow> grid \<Rightarrow> move list \<Rightarrow> table \<times> nat \<Rightarrow>
   (move \<times> int) list \<times> (table \<times> nat)" where
  "score_moves h c d n g [] st = ([], st)"
| "score_moves h c d n g (m # ms) st =
     (case minimax h c d n (apply_move g m) (opponent c) None None st of
        (v, st') \<Rightarrow>
          (case score_moves h c d n g ms st' of
             (rest, st'') \<Rightarrow> ((m, v) # rest, st'')))"

text \<open>
  Modelled from the spec: the moves whose score is equal to the best found, or within
  the tolerance of it.
\<close>

definition tied_best :: "nat \<Rightarrow> (move \<times> int) list \<Rightarrow> move list" where
  "tied_best tol scored =
     map fst (filter (\<lambda>(m, v). list_all (\<lambda>(m', v'). v' - v \<le> int tol) scored) scored)"

text \<open>
  Modelled from the spec: the seeded random source, a linear congruential generator;
  \<open>rng_index\<close> draws an index below \<open>k\<close>.
\<close>

definition rng_next :: "int \<Rightarrow> int" where
  "rng_next s = (1103515245 * s + 12345) mod 2 ^ 31"

definition rng_index :: "int \<Rightarrow> nat \<Rightarrow> nat" where
  "rng_index s k = nat (rng_next s mod int k)"

text \<open>
  Modelled from the spec: \<open>choose(board, color)\<close>. A table that grew past the cap of
  \<^verbatim>\<open>config.py\<close> is cleared first and \<open>nodes_searched\<close> is reset. With no legal move the
  answer is \<^verbatim>\<open>None\<close>. Otherwise the root moves are scored and one of the tied best is
  drawn with the random source; drawing from an empty sequence would raise
  \<^verbatim>\<open>IndexError\<close>. The search works on the grid it is given and hands no board back, so
  the caller's board is untouched.
\<close>

definition ai_choose :: "heuristics \<Rightarrow> ai \<Rightarrow> board \<Rightarrow> color \<Rightarrow> exc_class + (move option \<times> ai)" where
  "ai_choose h a b c =
     (let tt0 = (if MAX_TRANSPOSITION_SIZE < length (transposition_table a) then []
                 else transposition_table a);
          moves = legal_moves b c
      in if moves = [] then Inr (None, a\<lparr>transposition_table := tt0, nodes_searched := 0\<rparr>)
         else
           (case score_moves h c (search_depth h a (grid b) - 1) (board_size b) (grid b)
                   (order_moves (board_size b) tt0 (grid b) moves) (tt0, 0) of
              (scored, (tt1, cnt)) \<Rightarrow>
                (let tied = tied_best (tolerance h) scored
                 in if tied = [] then Inl IndexError
                    else
                      Inr (Some (tied ! rng_index (rng a) (length tied)),
                           a\<lparr>transposition_table := tt1, nodes_searched := cnt,
                             rng := rng_next (rng a)\<rparr>))))"

text \<open>
  Modelled from the spec: a board is well formed when its grid is \<open>size\<close> rows of \<open>size\<close>
  cells.
\<close>

definition well_formed :: "board \<Rightarrow> bool" where
  "well_formed b =
     (length (grid b) = board_size b \<and> list_all (\<lambda>r. length r = board_size b) (grid b))"

text \<open>
  Modelled from the spec: an evaluator with documented weights, combining the disc
  differential (weight 1), the corner differential (weight 30) and the mobility
  differential (weight 2).
\<close>

definition corners :: "nat \<Rightarrow> pos list" where
  "corners n = [(0, 0), (0, int n - 1), (int n - 1, 0), (int n - 1, int n - 1)]"

definition corner_count :: "nat \<Rightarrow> grid \<Rightarrow> color \<Rightarrow> nat" where
  "corner_count n g c = length (filter (\<lambda>p. cell_at g p = Disc c) (corners n))"

definition weighted_evaluate :: "nat \<Rightarrow> grid \<Rightarrow> color \<Rightarrow> int" where
  "weighted_evaluate n g c =
     (int (count_cells g (Disc c)) - int (count_cells g (Disc (opponent c))))
     + 30 * (int (corner_count n g c) - int (corner_count n g (opponent c)))
     + 2 * (int (length (grid_moves n g c)) - int (length (grid_moves n g (opponent c))))"

text \<open>The parameters and the fresh search engine the examples run with.\<close>

definition default_heuristics :: heuristics where
  "default_heuristics = \<lparr>evaluate = weighted_evaluate, endgame_empties = 8, tolerance = 0\<rparr>"

definition fresh_ai :: "nat \<Rightarrow> ai" where
  "fresh_ai d = \<lparr>max_depth = d, transposition_table = [], nodes_searched = 0, rng = 42\<rparr>"

text \<open>The 4x4 board of \<^verbatim>\<open>test_choose_no_moves\<close>, every cell Black.\<close>

definition full_board4 :: board where
  "full_board4 = \<lparr>board_size = 4, grid = replicate 4 (replicate 4 (Disc BLACK)),
                  to_move = BLACK, history = [], redo_stack = [], move_list = []\<rparr>"


section \<open>Properties of the validators\<close>

lemma validate_board_size_int:
  "validate_board_size (PInt n) = (4 \<le> n \<and> n \<le> 16 \<and> even n)"
  by (auto simp: validate_board_size_def MIN_BOARD_SIZE_def MAX_BOARD_SIZE_def)

lemma even_in_range_iff:
  "(4 \<le> n \<and> n \<le> 16 \<and> even n) = (n \<in> set VALID_BOARD_SIZES)" for n :: int
proof
  assume "4 \<le> n \<and> n \<le> 16 \<and> even n"
  then obtain k where k: "n = 2 * k" "2 \<le> k" "k \<le> 8" by (auto elim!: evenE)
  then have "k = 2 \<or> k = 3 \<or> k = 4 \<or> k = 5 \<or> k = 6 \<or> k = 7 \<or> k = 8" by arith
  with k(1) show "n \<in> set VALID_BOARD_SIZES"
    by (auto simp: VALID_BOARD_SIZES_def)
next
  assume "n \<in> set VALID_BOARD_SIZES"
  then show "4 \<le> n \<and> n \<le> 16 \<and> even n"
    by (auto simp: VALID_BOARD_SIZES_def)
qed

text \<open>
  Claim C9. For every value \<open>size\<close>, \<^verbatim>\<open>validate_board_size(size)\<close> returns \<^verbatim>\<open>True\<close> exactly
  when \<open>size\<close> is an integer with \<open>4 \<le> size \<le> 16\<close> and \<open>size\<close> even, which is the same as
  \<open>size\<close> being one of 4, 6, 8, 10, 12, 14, 16; on every other input (other integers,
  booleans, floats, strings, lists, dictionaries, \<^verbatim>\<open>None\<close>) it returns \<^verbatim>\<open>False\<close>.
\<close>

theorem validate_board_size_iff:
  "(validate_board_size sz = (\<exists>n. sz = PInt n \<and> 4 \<le> n \<and> n \<le> 16 \<and> even n)) \<and>
   (validate_board_size sz = (\<exists>n. sz = PInt n \<and> n \<in> set VALID_BOARD_SIZES))"
proof -
  have range: "validate_board_size sz = (\<exists>n. sz = PInt n \<and> 4 \<le> n \<and> n \<le> 16 \<and> even n)"
  proof (cases sz)
    case (PInt n)
    then show ?thesis by (simp add: validate_board_size_int)
  next
    case (PBool b)
    then show ?thesis
      by (simp add: validate_board_size_def MIN_BOARD_SIZE_def)
  qed (simp_all add: validate_board_size_def)
  then show ?thesis
    by (simp add: even_in_range_iff)
qed

subsection \<open>The save-file validator\<close>

lemma py_eq_int_number: "py_eq_int v k = (py_number v = Some (of_int k))"
proof (cases v)
  case (PFloat f)
  then show ?thesis by (cases f) simp_all
qed auto

lemma py_eq_int_length: "py_eq_int v (int n) = (py_number v = Some (of_nat n))"
  by (simp add: py_eq_int_number)

lemma py_in_ints_cell: "py_in_ints cell [0, 1, 2] = value_cell_ok cell"
  by (auto simp: value_cell_ok_def py_eq_int_number)

lemma py_in_ints_to_move: "py_in_ints tm [1, 2] = (py_number tm \<in> {Some 1, Some 2})"
  by (auto simp: py_eq_int_number)

lemma cells_valid_all: "cells_valid cells = list_all value_cell_ok cells"
  by (induction cells) (simp_all add: py_in_ints_cell del: py_in_ints.simps)

lemma rows_valid_all: "rows_valid sz rows = list_all (value_row_ok sz) rows"
proof (induction rows)
  case Nil
  show ?case by simp
next
  case (Cons row rows)
  show ?case
  proof (cases row)
    case (PList cells)
    with Cons show ?thesis
      by (auto simp: value_row_ok_def cells_valid_all py_eq_int_length)
  qed (simp_all add: value_row_ok_def)
qed

lemma validate_save_file_fields:
  assumes "data ''grid'' = Some g" "data ''size'' = Some sz" "data ''to_move'' = Some tm"
  shows "validate_save_file data =
           (value_grid_ok sz g \<and> py_number tm \<in> {Some 1, Some 2})"
proof (cases g)
  case (PList rows)
  with assms show ?thesis
    by (simp add: validate_save_file_def dict_get_def value_grid_ok_def rows_valid_all
        py_eq_int_length py_in_ints_to_move del: py_in_ints.simps)
qed (use assms in \<open>simp_all add: validate_save_file_def dict_get_def value_grid_ok_def\<close>)

lemma validate_save_file_missing:
  assumes "data ''grid'' = None \<or> data ''size'' = None \<or> data ''to_move'' = None"
  shows "validate_save_file data = False"
  using assms by (auto simp: validate_save_file_def)


lemma validate_save_file_by_value: "validate_save_file data = value_save_file_ok data"
proof (cases "data ''grid'' = None \<or> data ''size'' = None \<or> data ''to_move'' = None")
  case True
  then have "value_save_file_ok data = False"
    by (auto simp: value_save_file_ok_def split: option.splits)
  with True show ?thesis
    by (simp add: validate_save_file_missing)
next
  case False
  then obtain g sz tm where
    f: "data ''grid'' = Some g" "data ''size'' = Some sz" "data ''to_move'' = Some tm"
    by auto
  then show ?thesis
    by (simp add: validate_save_file_fields [OF f] value_save_file_ok_def)
qed

text \<open>A file that meets the conditions as the specification types them meets them by value.\<close>

lemma spec_cell_value: "spec_cell_ok cell \<Longrightarrow> value_cell_ok cell"
  by (auto simp: spec_cell_ok_def value_cell_ok_def)

lemma spec_row_value: "spec_row_ok n r \<Longrightarrow> value_row_ok (PInt n) r"
  by (cases r) (auto simp: spec_row_ok_def value_row_ok_def list_all_iff spec_cell_value)

lemma spec_grid_value: "spec_grid_ok n g \<Longrightarrow> value_grid_ok (PInt n) g"
  by (cases g) (auto simp: spec_grid_ok_def value_grid_ok_def list_all_iff spec_row_value)

lemma spec_save_file_fields:
  assumes "spec_save_file_ok data"
  obtains g n t where "data ''grid'' = Some g" "data ''size'' = Some (PInt n)"
    "data ''to_move'' = Some (PInt t)" "spec_grid_ok n g" "t = 1 \<or> t = 2"
proof -
  from assms obtain g where g: "data ''grid'' = Some g"
    by (cases "data ''grid''") (simp_all add: spec_save_file_ok_def)
  from assms g obtain sz where sz: "data ''size'' = Some sz"
    by (cases "data ''size''") (simp_all add: spec_save_file_ok_def)
  from assms g sz obtain n where n: "sz = PInt n"
    by (cases sz) (simp_all add: spec_save_file_ok_def)
  from assms g sz n obtain tm where tm: "data ''to_move'' = Some tm"
    by (cases "data ''to_move''") (simp_all add: spec_save_file_ok_def)
  from assms g sz n tm obtain t where t: "tm = PInt t"
    by (cases tm) (simp_all add: spec_save_file_ok_def)
  from assms g sz n tm t have "spec_grid_ok n g" "t = 1 \<or> t = 2"
    by (simp_all add: spec_save_file_ok_def)
  with g sz n tm t that show ?thesis by blast
qed

lemma spec_save_file_value: "spec_save_file_ok data \<Longrightarrow> value_save_file_ok data"
proof -
  assume "spec_save_file_ok data"
  then obtain g n t where f: "data ''grid'' = Some g" "data ''size'' = Some (PInt n)"
    "data ''to_move'' = Some (PInt t)" "spec_grid_ok n g" "t = 1 \<or> t = 2"
    by (rule spec_save_file_fields)
  from f(5) have "py_number (PInt t) \<in> {Some 1, Some 2}"
    by auto
  with f spec_grid_value [OF f(4)] show ?thesis
    by (simp add: value_save_file_ok_def)
qed

text \<open>Without booleans and floats the two readings agree.\<close>

lemma plain_number: "\<not> bool_or_float v \<Longrightarrow> (py_number v = Some (of_int k)) = (v = PInt k)"
  by (cases v) simp_all

lemma plain_number_nat: "\<not> bool_or_float v \<Longrightarrow> (py_number v = Some (of_nat n)) = (v = PInt (int n))"
  using plain_number [of v "int n"] by simp

lemma plain_cell: "\<not> bool_or_float cell \<Longrightarrow> value_cell_ok cell = spec_cell_ok cell"
  using plain_number [of cell 0] plain_number [of cell 1] plain_number [of cell 2]
  by (auto simp: value_cell_ok_def spec_cell_ok_def)

lemma plain_cells:
  "list_all (\<lambda>c. \<not> bool_or_float c) cells \<Longrightarrow>
     list_all value_cell_ok cells = list_all spec_cell_ok cells"
  by (induction cells) (simp_all add: plain_cell)

lemma plain_row_eq: "plain_row r \<Longrightarrow> value_row_ok (PInt n) r = spec_row_ok n r"
  by (cases r) (auto simp: plain_row_def value_row_ok_def spec_row_ok_def plain_cells)

lemma plain_rows:
  "list_all plain_row rows \<Longrightarrow>
     list_all (value_row_ok (PInt n)) rows = list_all (spec_row_ok n) rows"
  by (induction rows) (simp_all add: plain_row_eq)

lemma value_grid_needs_number: "value_grid_ok sz g \<Longrightarrow> py_number sz \<noteq> None"
  by (cases g) (auto simp: value_grid_ok_def)

lemma plain_save_file:
  assumes "plain_values data"
  shows "value_save_file_ok data = spec_save_file_ok data"
proof (cases "data ''grid'' = None \<or> data ''size'' = None \<or> data ''to_move'' = None")
  case True
  then show ?thesis
    by (auto simp: value_save_file_ok_def spec_save_file_ok_def split: option.splits pyval.splits)
next
  case False
  then obtain g sz tm where
    f: "data ''grid'' = Some g" "data ''size'' = Some sz" "data ''to_move'' = Some tm"
    by auto
  from assms f have p: "\<not> bool_or_float sz" "\<not> bool_or_float tm"
    by (simp_all add: plain_values_def no_bool_or_float_def)
  have tm: "(case tm of PInt t \<Rightarrow> P \<and> (t = 1 \<or> t = 2) | _ \<Rightarrow> False) =
      (P \<and> py_number tm \<in> {Some 1, Some 2})" for P
    using p(2) by (cases tm) auto
  show ?thesis
  proof (cases sz)
    case (PInt n)
    have "value_grid_ok (PInt n) g = spec_grid_ok n g"
    proof (cases g)
      case (PList rows)
      with assms f(1) have "list_all plain_row rows"
        by (simp add: plain_values_def)
      with PList show ?thesis
        by (auto simp: value_grid_ok_def spec_grid_ok_def plain_rows)
    qed (simp_all add: value_grid_ok_def spec_grid_ok_def)
    with f PInt show ?thesis
      by (simp add: value_save_file_ok_def spec_save_file_ok_def tm)
  next
    case (PBool b)
    with p(1) show ?thesis by simp
  next
    case (PFloat x)
    with p(1) show ?thesis by simp
  qed (use f value_grid_needs_number [of sz g] in
      \<open>auto simp: value_save_file_ok_def spec_save_file_ok_def\<close>)
qed

text \<open>The errors logged: none when the file is accepted, exactly one when it is rejected.\<close>

lemma field_errors_iff: "(field_errors data fs = []) = fields_present data fs"
  by (induction fs) simp_all

lemma field_errors_length: "length (field_errors data fs) \<le> Suc 0"
  by (induction fs) simp_all

lemma cell_errors_iff: "(cell_errors i j cells = []) = cells_valid cells"
  by (induction cells arbitrary: j) (simp_all del: py_in_ints.simps)

lemma cell_errors_length: "length (cell_errors i j cells) \<le> Suc 0"
  by (induction cells arbitrary: j) (simp_all del: py_in_ints.simps)

lemma row_errors_iff: "(row_errors sz i rows = []) = rows_valid sz rows"
  by (induction rows arbitrary: i) (simp_all add: cell_errors_iff split: option.splits)

lemma row_errors_length: "length (row_errors sz i rows) \<le> Suc 0"
proof (induction rows arbitrary: i)
  case Nil
  show ?case by simp
next
  case (Cons r rows)
  show ?case
  proof (cases "isinstance_list r")
    case None
    then show ?thesis by simp
  next
    case (Some cells)
    with Cons [of "Suc i"] cell_errors_length [of i 0 cells] show ?thesis
      by simp
  qed
qed

lemma save_file_errors_iff: "(save_file_errors data = []) = validate_save_file data"
  by (simp add: save_file_errors_def validate_save_file_def Let_def field_errors_iff
      row_errors_iff split: option.splits del: py_in_ints.simps fields_present.simps
      field_errors.simps)

lemma save_file_errors_length: "length (save_file_errors data) \<le> Suc 0"
proof (cases "field_errors data [''grid'', ''size'', ''to_move''] = []")
  case False
  with field_errors_length [of data "[''grid'', ''size'', ''to_move'']"] show ?thesis
    unfolding save_file_errors_def by (simp del: field_errors.simps)
next
  case True
  show ?thesis
  proof (cases "isinstance_list (dict_get data ''grid'' (PList []))")
    case None
    with True show ?thesis
      unfolding save_file_errors_def by (simp del: field_errors.simps)
  next
    case (Some rows)
    with True row_errors_length [of "dict_get data ''size'' (PInt 0)" 0 rows] show ?thesis
      unfolding save_file_errors_def
      by (simp add: Let_def del: field_errors.simps py_in_ints.simps)
  qed
qed

text \<open>
  Claim C1, as stated, fails: the validator compares with Python's \<^verbatim>\<open>==\<close>, under which a
  boolean or a float equals an integer. The file
  \<^verbatim>\<open>{"grid": [[0, 0], [0, 0]], "size": 2, "to_move": true}\<close> is accepted although its
  \<open>to_move\<close> is neither 1 nor 2.
\<close>

theorem validate_save_file_accepts_bool:
  "validate_save_file save_bool_to_move \<and> \<not> spec_save_file_ok save_bool_to_move \<and>
   save_bool_to_move ''to_move'' = Some (PBool True)"
  by (simp add: validate_save_file_def dict_get_def save_bool_to_move_def
      spec_save_file_ok_def)

text \<open>
  Claim C1, amended. For every mapping \<open>data\<close>, \<^verbatim>\<open>validate_save_file(data)\<close> returns \<^verbatim>\<open>True\<close>
  exactly when \<open>data\<close> has the keys \<open>grid\<close>, \<open>size\<close> and \<open>to_move\<close>, \<open>data['grid']\<close> is a
  list, \<open>data['size']\<close> is a number equal to the count of its rows, each row is a list
  whose length \<open>data['size']\<close> equals, every cell is a number equal to 0, 1 or 2, and
  \<open>data['to_move']\<close> is a number equal to 1 or 2, where a boolean or a float counts as
  the number it equals (\<^verbatim>\<open>True\<close> as 1, \<^verbatim>\<open>2.0\<close> as 2). Every file that meets the conditions
  with integers, as the specification types them, is accepted, and on a file that
  stores no boolean or float in \<open>size\<close>, \<open>to_move\<close> or a cell the validator returns \<^verbatim>\<open>True\<close>
  exactly when those conditions hold. Any violation makes it return \<^verbatim>\<open>False\<close> with
  exactly one error logged; an accepted file logs none. The validator hands back the
  boolean and nothing else, so a rejection builds no state.
\<close>

theorem validate_save_file_iff:
  "validate_save_file data = value_save_file_ok data \<and>
   (spec_save_file_ok data \<longrightarrow> validate_save_file data) \<and>
   (plain_values data \<longrightarrow> validate_save_file data = spec_save_file_ok data) \<and>
   (save_file_errors data = []) = validate_save_file data \<and>
   length (save_file_errors data) \<le> 1"
proof (intro conjI impI)
  show "validate_save_file data = value_save_file_ok data"
    by (rule validate_save_file_by_value)
next
  assume "spec_save_file_ok data"
  then show "validate_save_file data"
    by (simp add: validate_save_file_by_value spec_save_file_value)
next
  assume "plain_values data"
  then show "validate_save_file data = spec_save_file_ok data"
    by (simp add: validate_save_file_by_value plain_save_file)
next
  show "(save_file_errors data = []) = validate_save_file data"
    by (rule save_file_errors_iff)
next
  show "length (save_file_errors data) \<le> 1"
    using save_file_errors_length [of data] by simp
qed

theorem validate_save_file_iff_witness:
  "spec_save_file_ok save_opening4 \<and> plain_values save_opening4 \<and>
   validate_save_file save_opening4 \<and> save_file_errors save_opening4 = [] \<and>
   plain_values (save_opening4(''to_move'' \<mapsto> PInt 3)) \<and>
   \<not> validate_save_file (save_opening4(''to_move'' \<mapsto> PInt 3)) \<and>
   \<not> spec_save_file_ok (save_opening4(''to_move'' \<mapsto> PInt 3)) \<and>
   length (save_file_errors (save_opening4(''to_move'' \<mapsto> PInt 3))) = 1"
proof -
  let ?bad = "save_opening4(''to_move'' \<mapsto> PInt 3)"
  have s: "spec_save_file_ok save_opening4"
    by (simp add: spec_save_file_ok_def spec_grid_ok_def spec_row_ok_def spec_cell_ok_def
        save_opening4_def)
  have p: "plain_values save_opening4" "plain_values ?bad"
    by (simp_all add: plain_values_def no_bool_or_float_def plain_row_def save_opening4_def)
  have b: "\<not> spec_save_file_ok ?bad"
    by (simp add: spec_save_file_ok_def save_opening4_def)
  note good = validate_save_file_iff [of save_opening4]
  note bad = validate_save_file_iff [of ?bad]
  from good s have v: "validate_save_file save_opening4"
    by blast
  with good have e: "save_file_errors save_opening4 = []"
    by blast
  from bad p(2) b have nv: "\<not> validate_save_file ?bad"
    by blast
  with bad have "save_file_errors ?bad \<noteq> []" and "length (save_file_errors ?bad) \<le> 1"
    by blast+
  then have l: "length (save_file_errors ?bad) = 1"
    by (cases "save_file_errors ?bad") simp_all
  from s p v e nv b l show ?thesis
    by blast
qed








subsection \<open>The error-handling helpers\<close>

lemma named_classes_are_exceptions:
  "issubclass FileNotFoundError Exception" "issubclass PermissionError Exception"
  "issubclass JSONDecodeError Exception" "issubclass OSError Exception"
  by (simp_all add: issubclass_def numeral_nat)

lemma derived_class_is_exception:
  "issubclass (Derived name b) Exception = issubclass b Exception"
  by (simp add: issubclass_def)

lemma interrupts_are_not_exceptions:
  "\<not> issubclass KeyboardInterrupt Exception" "\<not> issubclass SystemExit Exception"
  "\<not> issubclass GeneratorExit Exception"
  by (simp_all add: issubclass_def numeral_nat)

lemma named_instance_is_exception:
  assumes "exc_cls e \<in> {FileNotFoundError, PermissionError, JSONDecodeError, OSError}"
  shows "isinstance_exc e Exception"
  using assms named_classes_are_exceptions by (auto simp: isinstance_exc_def)

lemma interrupt_instance_is_no_exception:
  assumes "exc_cls e \<in> {KeyboardInterrupt, SystemExit, GeneratorExit}"
  shows "\<not> isinstance_exc e Exception"
  using assms interrupts_are_not_exceptions by (auto simp: isinstance_exc_def)

lemma handle_file_errors_returns:
  assumes "func args = Inr v"
  shows "handle_file_errors r msg func args logs = (Inr v, logs)"
  using assms by (simp add: handle_file_errors_def)

lemma handle_file_errors_caught:
  assumes "func args = Inl e" and "isinstance_exc e Exception"
  shows "fst (handle_file_errors r msg func args logs) = Inr r"
  using assms by (simp add: handle_file_errors_def)

lemma not_Exception_not_subclass:
  assumes "\<not> issubclass c Exception" and "issubclass d Exception"
  shows "\<not> issubclass c d"
proof -
  have up: "d \<in> set (bases c) \<Longrightarrow> Exception \<in> set (bases d) \<Longrightarrow> Exception \<in> set (bases c)"
    for c d
  proof (induction c)
    case (Derived name b)
    then show ?case by (cases "d = Derived name b") auto
  qed (auto simp: numeral_nat)
  from assms up [of d c] show ?thesis
    by (auto simp: issubclass_def)
qed

lemma handle_file_errors_propagates:
  assumes "func args = Inl e" and "\<not> isinstance_exc e Exception"
  shows "handle_file_errors r msg func args logs = (Inl e, logs)"
proof -
  from assms(2) named_classes_are_exceptions
  have "\<not> isinstance_exc e FileNotFoundError" "\<not> isinstance_exc e PermissionError"
    "\<not> isinstance_exc e JSONDecodeError" "\<not> isinstance_exc e OSError"
    unfolding isinstance_exc_def by (blast dest: not_Exception_not_subclass)+
  with assms show ?thesis
    by (simp add: handle_file_errors_def)
qed

lemma safe_execute_returns:
  assumes "call func args = Inr v"
  shows "safe_execute func args d error_msg logs = (Inr v, logs)"
  using assms by (simp add: safe_execute_def)

lemma safe_execute_caught:
  assumes "call func args = Inl e" and "isinstance_exc e Exception"
    and "error_msg \<noteq> [] \<or> func_name func \<noteq> None"
  shows "fst (safe_execute func args d error_msg logs) = Inr d"
  using assms by (auto simp: safe_execute_def)

lemma safe_execute_propagates:
  assumes "call func args = Inl e" and "\<not> isinstance_exc e Exception"
  shows "safe_execute func args d error_msg logs = (Inl e, logs)"
  using assms by (simp add: safe_execute_def)

lemma safe_execute_nameless:
  assumes "call func args = Inl e" and "isinstance_exc e Exception"
    and "func_name func = None"
  shows "fst (safe_execute func args d [] logs) =
           Inl \<lparr>exc_cls = AttributeError,
                exc_text = quoted (type_name func) @ '' object has no attribute ''
                           @ quoted ''__name__''\<rparr>"
  using assms by (simp add: safe_execute_def)

text \<open>
  Claim C10, as stated, fails: \<^verbatim>\<open>except Exception\<close> does not catch an exception whose
  class is outside \<^verbatim>\<open>Exception\<close>. A function interrupted by \<^verbatim>\<open>KeyboardInterrupt\<close> makes
  \<^verbatim>\<open>safe_execute\<close> raise that exception instead of returning the default, and the wrapper
  of \<^verbatim>\<open>handle_file_errors\<close> lets it through as well.
\<close>

theorem safe_execute_propagates_interrupt:
  "fst (safe_execute interrupted () 0 [] []) =
     Inl \<lparr>exc_cls = KeyboardInterrupt, exc_text = []\<rparr> \<and>
   fst (handle_file_errors 0 [] (call interrupted) () []) =
     Inl \<lparr>exc_cls = KeyboardInterrupt, exc_text = []\<rparr>"
  by (simp add: safe_execute_def handle_file_errors_def interrupted_def isinstance_exc_def
      issubclass_def numeral_nat)

text \<open>
  Claim C10, amended. The helpers never propagate an exception of class \<^verbatim>\<open>Exception\<close>
  raised by the wrapped callable. For every function \<open>f\<close> (a callable with a \<^verbatim>\<open>__name__\<close>),
  \<^verbatim>\<open>safe_execute(f, ..., default=d)\<close> returns \<open>f\<close>'s result when \<open>f\<close> returns normally and
  returns \<open>d\<close> whenever \<open>f\<close> raises an instance of \<^verbatim>\<open>Exception\<close>; a function decorated with
  \<^verbatim>\<open>handle_file_errors(default_return=r)\<close> returns its body's result when the body returns
  normally and returns \<open>r\<close> when the body raises \<^verbatim>\<open>FileNotFoundError\<close>, \<^verbatim>\<open>PermissionError\<close>,
  \<^verbatim>\<open>json.JSONDecodeError\<close>, \<^verbatim>\<open>OSError\<close> or any other instance of \<^verbatim>\<open>Exception\<close>.
  Every exception that is not an instance of \<^verbatim>\<open>Exception\<close>, \<^verbatim>\<open>KeyboardInterrupt\<close>,
  \<^verbatim>\<open>SystemExit\<close> and \<^verbatim>\<open>GeneratorExit\<close> among them, propagates through both helpers: the
  very exception leaves the helper, and nothing is logged.
\<close>

theorem helpers_catch_Exception:
  assumes "func_name f = Some n"
  shows
    "(call f args = Inr v \<longrightarrow> fst (safe_execute f args d error_msg logs) = Inr v) \<and>
     (call f args = Inl e \<and> isinstance_exc e Exception \<longrightarrow>
        fst (safe_execute f args d error_msg logs) = Inr d) \<and>
     (call f args = Inl e \<and>
        (exc_cls e \<in> {KeyboardInterrupt, SystemExit, GeneratorExit} \<or>
         \<not> isinstance_exc e Exception) \<longrightarrow>
        safe_execute f args d error_msg logs = (Inl e, logs)) \<and>
     (body args' = Inr v' \<longrightarrow> fst (handle_file_errors r msg body args' logs') = Inr v') \<and>
     (body args' = Inl e' \<and>
        (exc_cls e' \<in> {FileNotFoundError, PermissionError, JSONDecodeError, OSError} \<or>
         isinstance_exc e' Exception) \<longrightarrow>
        fst (handle_file_errors r msg body args' logs') = Inr r) \<and>
     (body args' = Inl e' \<and>
        (exc_cls e' \<in> {KeyboardInterrupt, SystemExit, GeneratorExit} \<or>
         \<not> isinstance_exc e' Exception) \<longrightarrow>
        handle_file_errors r msg body args' logs' = (Inl e', logs'))"
proof (intro conjI impI)
  assume "call f args = Inr v"
  then show "fst (safe_execute f args d error_msg logs) = Inr v"
    by (simp add: safe_execute_returns)
next
  assume "call f args = Inl e \<and> isinstance_exc e Exception"
  with assms show "fst (safe_execute f args d error_msg logs) = Inr d"
    by (simp add: safe_execute_caught)
next
  assume a: "call f args = Inl e \<and>
    (exc_cls e \<in> {KeyboardInterrupt, SystemExit, GeneratorExit} \<or>
     \<not> isinstance_exc e Exception)"
  then have "\<not> isinstance_exc e Exception"
    using interrupt_instance_is_no_exception [of e] by blast
  with a show "safe_execute f args d error_msg logs = (Inl e, logs)"
    by (simp add: safe_execute_propagates)
next
  assume "body args' = Inr v'"
  then show "fst (handle_file_errors r msg body args' logs') = Inr v'"
    by (simp add: handle_file_errors_returns)
next
  assume a: "body args' = Inl e' \<and>
    (exc_cls e' \<in> {FileNotFoundError, PermissionError, JSONDecodeError, OSError} \<or>
     isinstance_exc e' Exception)"
  then have "isinstance_exc e' Exception"
    using named_instance_is_exception [of e'] by blast
  with a show "fst (handle_file_errors r msg body args' logs') = Inr r"
    by (simp add: handle_file_errors_caught)
next
  assume a: "body args' = Inl e' \<and>
    (exc_cls e' \<in> {KeyboardInterrupt, SystemExit, GeneratorExit} \<or>
     \<not> isinstance_exc e' Exception)"
  then have "\<not> isinstance_exc e' Exception"
    using interrupt_instance_is_no_exception [of e'] by blast
  with a show "handle_file_errors r msg body args' logs' = (Inl e', logs')"
    by (simp add: handle_file_errors_propagates)
qed

theorem helpers_catch_Exception_witness:
  "func_name file_missing = Some ''load'' \<and>
   call file_missing () = Inl \<lparr>exc_cls = FileNotFoundError, exc_text = ''save.rsv''\<rparr> \<and>
   isinstance_exc \<lparr>exc_cls = FileNotFoundError, exc_text = ''save.rsv''\<rparr> Exception \<and>
   fst (safe_execute file_missing () 0 [] []) = Inr 0 \<and>
   fst (handle_file_errors 0 ''Load failed'' (call file_missing) () []) = Inr 0 \<and>
   func_name returns_seven = Some ''seven'' \<and>
   call returns_seven () = Inr 7 \<and>
   fst (safe_execute returns_seven () 0 [] []) = Inr 7 \<and>
   fst (handle_file_errors 0 ''Load failed'' (call returns_seven) () []) = Inr 7 \<and>
   func_name exits = Some ''quit'' \<and>
   call exits () = Inl \<lparr>exc_cls = SystemExit, exc_text = ''1''\<rparr> \<and>
   exc_cls \<lparr>exc_cls = SystemExit, exc_text = ''1''\<rparr>
     \<in> {KeyboardInterrupt, SystemExit, GeneratorExit} \<and>
   safe_execute exits () 0 [] [] = (Inl \<lparr>exc_cls = SystemExit, exc_text = ''1''\<rparr>, []) \<and>
   handle_file_errors 0 ''Load failed'' (call exits) () [] =
     (Inl \<lparr>exc_cls = SystemExit, exc_text = ''1''\<rparr>, [])"
proof -
  let ?e = "\<lparr>exc_cls = FileNotFoundError, exc_text = ''save.rsv''\<rparr>"
  let ?x = "\<lparr>exc_cls = SystemExit, exc_text = ''1''\<rparr>"
  have n1: "func_name file_missing = Some ''load''"
    and c1: "call file_missing () = Inl ?e"
    by (simp_all add: file_missing_def)
  have i1: "isinstance_exc ?e Exception"
    by (simp add: isinstance_exc_def named_classes_are_exceptions)
  have n2: "func_name returns_seven = Some ''seven''"
    and c2: "call returns_seven () = Inr 7"
    by (simp_all add: returns_seven_def)
  have n3: "func_name exits = Some ''quit''"
    and c3: "call exits () = Inl ?x"
    by (simp_all add: exits_def)
  have i3: "exc_cls ?x \<in> {KeyboardInterrupt, SystemExit, GeneratorExit}"
    by simp
  note missing = helpers_catch_Exception [OF n1, of "()" 7 0 "[]" "[]" ?e "call file_missing"
      "()" 7 0 "''Load failed''" "[]" ?e]
  note seven = helpers_catch_Exception [OF n2, of "()" 7 0 "[]" "[]" ?e "call returns_seven"
      "()" 7 0 "''Load failed''" "[]" ?e]
  note quit = helpers_catch_Exception [OF n3, of "()" 7 0 "[]" "[]" ?x "call exits"
      "()" 7 0 "''Load failed''" "[]" ?x]
  from missing c1 i1 have m: "fst (safe_execute file_missing () 0 [] []) = Inr 0"
    "fst (handle_file_errors 0 ''Load failed'' (call file_missing) () []) = Inr 0"
    by blast+
  from seven c2 have s: "fst (safe_execute returns_seven () 0 [] []) = Inr 7"
    "fst (handle_file_errors 0 ''Load failed'' (call returns_seven) () []) = Inr 7"
    by blast+
  from quit c3 i3 have q: "safe_execute exits () 0 [] [] = (Inl ?x, [])"
    "handle_file_errors 0 ''Load failed'' (call exits) () [] = (Inl ?x, [])"
    by blast+
  from n1 c1 i1 m n2 c2 s n3 c3 i3 q show ?thesis
    by blast
qed


section \<open>Properties of the board\<close>

lemma construct_8: "construct 8 = Inr board8"
  by (simp add: construct_def board8_def MIN_BOARD_SIZE_def MAX_BOARD_SIZE_def)

lemma grid_moves_initial_8:
  "grid_moves 8 (initial_grid 8) BLACK =
     [\<lparr>row = 2, col = 3, color = BLACK, flips = [(3, 3)]\<rparr>,
      \<lparr>row = 3, col = 2, color = BLACK, flips = [(3, 3)]\<rparr>,
      \<lparr>row = 4, col = 5, color = BLACK, flips = [(4, 4)]\<rparr>,
      \<lparr>row = 5, col = 4, color = BLACK, flips = [(4, 4)]\<rparr>]"
  by code_simp

lemma legal_moves_board8:
  "legal_moves board8 BLACK =
     [\<lparr>row = 2, col = 3, color = BLACK, flips = [(3, 3)]\<rparr>,
      \<lparr>row = 3, col = 2, color = BLACK, flips = [(3, 3)]\<rparr>,
      \<lparr>row = 4, col = 5, color = BLACK, flips = [(4, 4)]\<rparr>,
      \<lparr>row = 5, col = 4, color = BLACK, flips = [(4, 4)]\<rparr>]"
  by (simp add: legal_moves_def board8_def grid_moves_initial_8)

text \<open>
  Claim C7. On a freshly constructed 8x8 board, \<open>legal_moves(Black)\<close> yields exactly the
  four positions (2,3), (3,2), (4,5), (5,4), in row-major scan order, and the flip set of
  each of these moves holds exactly one cell.
\<close>

theorem initial_legal_moves:
  "\<exists>b. construct 8 = Inr b \<and>
       map (\<lambda>m. (row m, col m)) (legal_moves b BLACK) = [(2, 3), (3, 2), (4, 5), (5, 4)] \<and>
       map color (legal_moves b BLACK) = [BLACK, BLACK, BLACK, BLACK] \<and>
       map flips (legal_moves b BLACK) = [[(3, 3)], [(3, 3)], [(4, 4)], [(4, 4)]] \<and>
       list_all (\<lambda>m. length (flips m) = 1) (legal_moves b BLACK)"
  by (simp add: construct_8 legal_moves_board8)

lemma undo_after_make_move:
  assumes "make_move b m = Inr b1"
  shows "undo b1 =
           (b1\<lparr>redo_stack := [(grid b1, to_move b1)], history := history b,
               grid := grid b, to_move := to_move b\<rparr>, True)"
  using assms by (auto simp: make_move_def undo_def split: if_splits)

text \<open>
  Claim C4. For every board with a legal move \<open>m\<close> for the side to move, \<open>make_move(m)\<close>
  succeeds and the \<open>undo()\<close> after it returns true and restores the exact prior grid and
  the exact prior \<open>to_move\<close>; \<open>undo()\<close> on a board with empty history returns false and
  leaves the board unchanged.
\<close>

theorem make_move_then_undo:
  "(m \<in> set (legal_moves b (to_move b)) \<longrightarrow>
      (\<exists>b1 b2. make_move b m = Inr b1 \<and> undo b1 = (b2, True) \<and>
                grid b2 = grid b \<and> to_move b2 = to_move b)) \<and>
   (history b' = [] \<longrightarrow> undo b' = (b', False))"
proof (intro conjI impI)
  assume legal: "m \<in> set (legal_moves b (to_move b))"
  then obtain b1 where b1: "make_move b m = Inr b1"
    by (simp add: make_move_def)
  from undo_after_make_move [OF b1] b1
  show "\<exists>b1 b2. make_move b m = Inr b1 \<and> undo b1 = (b2, True) \<and>
                 grid b2 = grid b \<and> to_move b2 = to_move b"
    by simp
next
  assume "history b' = []"
  then show "undo b' = (b', False)"
    by (simp add: undo_def)
qed

theorem make_move_then_undo_witness:
  "opening_move \<in> set (legal_moves board8 (to_move board8)) \<and>
   (\<exists>b1 b2. make_move board8 opening_move = Inr b1 \<and> undo b1 = (b2, True) \<and>
             grid b2 = grid board8 \<and> to_move b2 = to_move board8) \<and>
   history board8 = [] \<and> undo board8 = (board8, False)"
proof -
  have t: "to_move board8 = BLACK" and h: "history board8 = []"
    by (simp_all add: board8_def)
  have l: "opening_move \<in> set (legal_moves board8 (to_move board8))"
    by (simp add: t legal_moves_board8 opening_move_def)
  from make_move_then_undo [of opening_move board8 board8] l h
  show ?thesis by simp
qed

section \<open>Properties of the search engine\<close>

lemma score_moves_moves:
  "score_moves h c d n g ms st = (scored, st') \<Longrightarrow> map fst scored = ms"
proof (induction ms arbitrary: st scored st')
  case Nil
  then show ?case by simp
next
  case (Cons m ms)
  obtain v st1 where v: "minimax h c d n (apply_move g m) (opponent c) None None st = (v, st1)"
    by (cases "minimax h c d n (apply_move g m) (opponent c) None None st")
  obtain rest st2 where r: "score_moves h c d n g ms st1 = (rest, st2)"
    by (cases "score_moves h c d n g ms st1")
  from Cons.prems v r have "scored = (m, v) # rest"
    by simp
  with Cons.IH [OF r] show ?case by simp
qed

lemma set_order_moves: "set (order_moves n tt g ms) = set ms"
  by (auto simp: order_moves_def)

lemma best_scored_exists:
  assumes "scored \<noteq> []"
  shows "\<exists>x \<in> set scored. \<forall>y \<in> set scored. snd y \<le> snd (x :: move \<times> int)"
proof -
  let ?S = "snd ` set scored"
  have fin: "finite ?S" and ne: "?S \<noteq> {}"
    using assms by auto
  then have "Max ?S \<in> ?S"
    by (rule Max_in)
  then obtain x where x: "x \<in> set scored" "snd x = Max ?S"
    by auto
  have "\<forall>y \<in> set scored. snd y \<le> snd x"
    using fin x(2) by (auto intro: Max_ge)
  with x(1) show ?thesis by blast
qed

lemma tied_best_nonempty:
  assumes "scored \<noteq> []"
  shows "tied_best tol scored \<noteq> []"
proof -
  from best_scored_exists [OF assms]
  obtain x where x: "x \<in> set scored" "\<forall>y \<in> set scored. snd y \<le> snd x"
    by blast
  have "list_all (\<lambda>(m', v'). v' - snd x \<le> int tol) scored"
    unfolding list_all_iff
  proof
    fix y assume "y \<in> set scored"
    with x(2) have "snd y \<le> snd x" by blast
    then show "case y of (m', v') \<Rightarrow> v' - snd x \<le> int tol"
      by (cases y) simp
  qed
  with x(1) have "x \<in> set (filter (\<lambda>(m, v). list_all (\<lambda>(m', v'). v' - v \<le> int tol) scored) scored)"
    by (simp add: case_prod_beta)
  then show ?thesis
    unfolding tied_best_def by (metis empty_iff list.map_disc_iff list.set(1))
qed

lemma tied_best_scored: "set (tied_best tol scored) \<subseteq> set (map fst scored)"
  by (auto simp: tied_best_def)

lemma rng_index_less: "0 < k \<Longrightarrow> rng_index s k < k"
  by (simp add: rng_index_def nat_less_iff)

lemma ai_choose_no_moves:
  assumes "legal_moves b c = []"
  shows "\<exists>a'. ai_choose h a b c = Inr (None, a')"
  using assms by (simp add: ai_choose_def Let_def)

lemma ai_choose_some_move:
  assumes "legal_moves b c \<noteq> []"
  shows "\<exists>m a'. ai_choose h a b c = Inr (Some m, a') \<and> m \<in> set (legal_moves b c)"
proof -
  define tt0 where "tt0 =
    (if MAX_TRANSPOSITION_SIZE < length (transposition_table a) then []
     else transposition_table a)"
  define ordered where "ordered = order_moves (board_size b) tt0 (grid b) (legal_moves b c)"
  define res where "res =
    score_moves h c (search_depth h a (grid b) - 1) (board_size b) (grid b) ordered (tt0, 0)"
  obtain scored tt1 cnt where res: "res = (scored, (tt1, cnt))"
    by (metis prod.exhaust)
  define tied where "tied = tied_best (tolerance h) scored"
  have moves: "map fst scored = ordered"
    using res unfolding res_def by (rule score_moves_moves)
  have "set ordered = set (legal_moves b c)"
    by (simp add: ordered_def set_order_moves)
  with assms have "ordered \<noteq> []" by auto
  with moves have "scored \<noteq> []" by auto
  then have ne: "tied \<noteq> []"
    by (simp add: tied_def tied_best_nonempty)
  then have "rng_index (rng a) (length tied) < length tied"
    by (simp add: rng_index_less)
  then have "tied ! rng_index (rng a) (length tied) \<in> set tied"
    by (rule nth_mem)
  moreover have "set tied \<subseteq> set (legal_moves b c)"
    using tied_best_scored [of "tolerance h" scored] moves
      \<open>set ordered = set (legal_moves b c)\<close>
    by (simp add: tied_def)
  ultimately have mem: "tied ! rng_index (rng a) (length tied) \<in> set (legal_moves b c)"
    by blast
  have "ai_choose h a b c =
          Inr (Some (tied ! rng_index (rng a) (length tied)),
               a\<lparr>transposition_table := tt1, nodes_searched := cnt,
                 rng := rng_next (rng a)\<rparr>)"
    using assms ne res
    unfolding res_def tied_def ordered_def tt0_def
    by (simp add: ai_choose_def Let_def)
  with mem show ?thesis by blast
qed

text \<open>
  Claim C5. For every well-formed board and color, \<open>AI.choose(board, color)\<close> never
  raises: it returns a result. When \<open>legal_moves(color)\<close> is non-empty the result is a
  move present in \<open>legal_moves(color)\<close>, and the result is \<^verbatim>\<open>None\<close> if and only if
  \<open>legal_moves(color)\<close> is empty. This holds whatever the evaluator, the endgame
  threshold, the tolerance, the contents of the transposition table and the state of
  the random source.
\<close>

theorem ai_choose_legal:
  assumes "well_formed b"
  shows
    "(\<exists>r. ai_choose h a b c = Inr r) \<and>
     (legal_moves b c \<noteq> [] \<longrightarrow>
        (\<exists>m a'. ai_choose h a b c = Inr (Some m, a') \<and> m \<in> set (legal_moves b c))) \<and>
     ((\<exists>a'. ai_choose h a b c = Inr (None, a')) = (legal_moves b c = []))"
proof (cases "legal_moves b c = []")
  case True
  with ai_choose_no_moves [of b c h a] show ?thesis by auto
next
  case False
  with ai_choose_some_move [of b c h a] show ?thesis by auto
qed

lemma legal_moves_full_board4: "legal_moves full_board4 BLACK = []"
  unfolding legal_moves_def full_board4_def by code_simp

theorem ai_choose_legal_witness:
  "well_formed board8 \<and> legal_moves board8 BLACK \<noteq> [] \<and>
   (\<exists>m a'. ai_choose default_heuristics (fresh_ai 1) board8 BLACK = Inr (Some m, a') \<and>
            m \<in> set (legal_moves board8 BLACK)) \<and>
   well_formed full_board4 \<and> legal_moves full_board4 BLACK = [] \<and>
   (\<exists>a'. ai_choose default_heuristics (fresh_ai 1) full_board4 BLACK = Inr (None, a'))"
proof -
  have w8: "well_formed board8"
    by code_simp
  have w4: "well_formed full_board4"
    by code_simp
  have l8: "legal_moves board8 BLACK \<noteq> []"
    by (simp add: legal_moves_board8)
  from ai_choose_legal [OF w8, of default_heuristics "fresh_ai 1" BLACK]
    ai_choose_legal [OF w4, of default_heuristics "fresh_ai 1" BLACK]
    w8 w4 l8 legal_moves_full_board4
  show ?thesis by simp
qed

end
